theory Spec2Isabelle
  imports Main "HOL-Library.Word"
begin

section \<open>Data model of \<^verbatim>\<open>source/fitz/error.c\<close>\<close>

text \<open>
  The file implements MuPDF's warning log and its setjmp/longjmp exception stack. Both
  live in one \<^verbatim>\<open>fz_context\<close>. The C \<^verbatim>\<open>int\<close> is modelled as a 32-bit word:
  \<open>+\<close> wraps around and \<open>sint\<close> reads the value in two's complement, which is what the
  comparisons \<^verbatim>\<open>count > 1\<close>, \<^verbatim>\<open>code < 3\<close> and the conversion \<^verbatim>\<open>%d\<close> see.
  The build modelled is the one with \<^verbatim>\<open>assert\<close> enabled and without
  \<^verbatim>\<open>USE_OUTPUT_DEBUG_STRING\<close> and \<^verbatim>\<open>__ANDROID__\<close>, so that \<^verbatim>\<open>stderr\<close> is the
  only sink.
\<close>

type_synonym c_int = "32 word"

text \<open>
  The header \<^verbatim>\<open>mupdf/fitz.h\<close> supplies the error-code enumeration and the sizes of
  the two message buffers. Their values are parameters of the model.
\<close>

record fitz_h =
  FZ_ERROR_GENERIC :: c_int
  FZ_ERROR_ABORT :: c_int
  sizeof_warn_message :: nat
  sizeof_error_message :: nat

text \<open>Modelled from the spec: the enumeration value NONE, which the spec fixes as 0.\<close>

definition FZ_ERROR_NONE :: c_int where
  "FZ_ERROR_NONE = 0"

text \<open>
  The context. \<open>error_stack\<close> holds the \<^verbatim>\<open>code\<close> field of every slot of
  \<^verbatim>\<open>ctx->error->stack\<close>, so \<^verbatim>\<open>nelem(ctx->error->stack)\<close> is its length; the
  \<^verbatim>\<open>jmp_buf\<close> of a slot is an opaque continuation and is represented by the outcome
  \<open>Longjmp\<close> below. \<open>error_top\<close> is the index \<^verbatim>\<open>ctx->error->top - ctx->error->stack\<close>,
  which is \<open>-1\<close> when no frame is active. The two message buffers hold C strings.
  \<open>stderr\<close> is the sequence of texts written by the calls of \<^verbatim>\<open>fprintf(stderr, ...)\<close>,
  one element for each call.
\<close>

record fz_context =
  error_top :: int
  error_stack :: "c_int list"
  error_errcode :: c_int
  error_message :: string
  warn_message :: string
  warn_count :: c_int
  stderr :: "string list"

text \<open>
  How a call ends: it returns a value, it leaves through \<^verbatim>\<open>fz_longjmp\<close> to the
  buffer of the top frame, it ends the process through \<^verbatim>\<open>exit(EXIT_FAILURE)\<close>, an
  \<^verbatim>\<open>assert\<close> fails, or it accesses a stack slot outside the array (undefined
  behaviour in C).
\<close>

datatype 'a outcome =
    Return 'a fz_context
  | Longjmp fz_context
  | Exit fz_context
  | Assert_failed fz_context
  | Out_of_bounds

text \<open>Sequencing of statements: only a call that returns lets the next one run.\<close>

fun and_then :: "'a outcome \<Rightarrow> ('a \<Rightarrow> fz_context \<Rightarrow> 'b outcome) \<Rightarrow> 'b outcome" where
  "and_then (Return v ctx) f = f v ctx"
| "and_then (Longjmp ctx) f = Longjmp ctx"
| "and_then (Exit ctx) f = Exit ctx"
| "and_then (Assert_failed ctx) f = Assert_failed ctx"
| "and_then Out_of_bounds f = Out_of_bounds"

section \<open>Library routines used by the file\<close>

definition newline :: string where
  "newline = [CHR 0x0A]"

text \<open>The text a C string buffer holds ends before the first NUL byte.\<close>

definition c_string :: "string \<Rightarrow> string" where
  "c_string bytes = takeWhile (\<lambda>c. c \<noteq> CHR 0x00) bytes"

text \<open>
  Modelled from the spec: the formatter \<^verbatim>\<open>fz_vsnprintf\<close>, an external collaborator
  that yields the truncated, null-terminated text. Its argument \<open>txt\<close> is the full
  expansion of the format with its arguments; a buffer of \<open>n\<close> bytes keeps at most
  \<open>n - 1\<close> of them before the terminator, which the callers also store themselves
  (\<^verbatim>\<open>buf[sizeof buf - 1] = 0\<close>).
\<close>

definition fz_vsnprintf :: "nat \<Rightarrow> string \<Rightarrow> string" where
  "fz_vsnprintf n txt = c_string (take (n - 1) txt)"

text \<open>
  Modelled from the spec: \<^verbatim>\<open>fz_strlcpy\<close>, the bounded copy that records the new
  pending message.
\<close>

definition fz_strlcpy :: "string \<Rightarrow> nat \<Rightarrow> string" where
  "fz_strlcpy src n = take (n - 1) (c_string src)"

text \<open>The conversion \<^verbatim>\<open>%d\<close> of \<^verbatim>\<open>fprintf\<close>.\<close>

fun decimal :: "nat \<Rightarrow> string" where
  "decimal n = (if n < 10 then [''0123456789'' ! n]
                else decimal (n div 10) @ [''0123456789'' ! (n mod 10)])"

declare decimal.simps [simp del]

definition printf_d :: "c_int \<Rightarrow> string" where
  "printf_d v = (if sint v < 0 then CHR ''-'' # decimal (nat (- sint v))
                 else decimal (nat (sint v)))"

definition fprintf_stderr :: "string \<Rightarrow> fz_context \<Rightarrow> fz_context" where
  "fprintf_stderr txt ctx = ctx\<lparr>stderr := stderr ctx @ [txt]\<rparr>"

section \<open>Warning context\<close>

definition repeated_line :: "c_int \<Rightarrow> string" where
  "repeated_line n = ''warning: ... repeated '' @ printf_d n @ '' times ...'' @ newline"

definition warning_line :: "string \<Rightarrow> string" where
  "warning_line buf = ''warning: '' @ buf @ newline"

definition fz_flush_warnings :: "fz_context \<Rightarrow> fz_context" where
  "fz_flush_warnings ctx =
     (let ctx1 = (if 1 < sint (warn_count ctx)
                  then fprintf_stderr (repeated_line (warn_count ctx)) ctx
                  else ctx)
      in ctx1\<lparr>warn_message := [], warn_count := 0\<rparr>)"

definition fz_vwarn :: "fitz_h \<Rightarrow> string \<Rightarrow> fz_context \<Rightarrow> fz_context" where
  "fz_vwarn h txt ctx =
     (let buf = fz_vsnprintf (sizeof_warn_message h) txt
      in if buf = warn_message ctx
         then ctx\<lparr>warn_count := warn_count ctx + 1\<rparr>
         else (let ctx1 = fz_flush_warnings ctx;
                   ctx2 = fprintf_stderr (warning_line buf) ctx1
               in ctx2\<lparr>warn_message := fz_strlcpy buf (sizeof_warn_message h),
                       warn_count := 1\<rparr>))"

definition fz_warn :: "fitz_h \<Rightarrow> string \<Rightarrow> fz_context \<Rightarrow> fz_context" where
  "fz_warn h txt ctx = fz_vwarn h txt ctx"

section \<open>Error context\<close>

text \<open>
  Access to the slot \<^verbatim>\<open>ctx->error->top\<close> points at. A C access through a pointer
  outside the array is undefined; every function below checks \<open>in_stack\<close> before it
  reads or writes the slot and ends in \<open>Out_of_bounds\<close> otherwise.
\<close>

definition nelem_stack :: "fz_context \<Rightarrow> int" where
  "nelem_stack ctx = int (length (error_stack ctx))"

definition in_stack :: "fz_context \<Rightarrow> bool" where
  "in_stack ctx = (0 \<le> error_top ctx \<and> error_top ctx < nelem_stack ctx)"

definition top_code :: "fz_context \<Rightarrow> c_int" where
  "top_code ctx = error_stack ctx ! nat (error_top ctx)"

definition set_top_code :: "c_int \<Rightarrow> fz_context \<Rightarrow> fz_context" where
  "set_top_code v ctx = ctx\<lparr>error_stack := (error_stack ctx)[nat (error_top ctx) := v]\<rparr>"

definition uncaught_line :: "string \<Rightarrow> string" where
  "uncaught_line msg = ''uncaught exception: '' @ msg @ newline"

definition error_line :: "string \<Rightarrow> string" where
  "error_line msg = ''error: '' @ msg @ newline"

definition throw :: "fz_context \<Rightarrow> unit outcome" where
  "throw ctx =
     (if 0 \<le> error_top ctx
      then (if in_stack ctx
            then Longjmp (set_top_code (top_code ctx + 2) ctx)
            else Out_of_bounds)
      else Exit (fprintf_stderr (uncaught_line (error_message ctx)) ctx))"

definition fz_fake_throw :: "fitz_h \<Rightarrow> c_int \<Rightarrow> string \<Rightarrow> fz_context \<Rightarrow> c_int outcome" where
  "fz_fake_throw h code txt ctx =
     (let ctx1 = ctx\<lparr>error_errcode := code\<rparr>;
          ctx2 = ctx1\<lparr>error_message := fz_vsnprintf (sizeof_error_message h) txt\<rparr>;
          ctx3 = (if code \<noteq> FZ_ERROR_ABORT h
                  then fprintf_stderr (error_line (error_message ctx2)) (fz_flush_warnings ctx2)
                  else ctx2);
          ctx4 = ctx3\<lparr>error_top := error_top ctx3 + 1\<rparr>
      in if in_stack ctx4 then Return 0 (set_top_code 2 ctx4) else Out_of_bounds)"

definition fz_push_try :: "fitz_h \<Rightarrow> fz_context \<Rightarrow> c_int outcome" where
  "fz_push_try h ctx =
     (if nelem_stack ctx \<le> error_top ctx + 2
      then fz_fake_throw h (FZ_ERROR_GENERIC h) ''exception stack overflow!'' ctx
      else (let ctx1 = ctx\<lparr>error_top := error_top ctx + 1\<rparr>
            in if in_stack ctx1 then Return 1 (set_top_code 0 ctx1) else Out_of_bounds))"

text \<open>
  The two accessors, \<^verbatim>\<open>fz_rethrow\<close> and \<^verbatim>\<open>fz_rethrow_if\<close> start with
  \<^verbatim>\<open>assert(ctx && ctx->error && ctx->error->errcode >= FZ_ERROR_NONE)\<close>. The context
  and its error part always exist in the model, so the last conjunct is what is checked;
  a failed assertion ends the call in \<open>Assert_failed\<close>.
\<close>

definition errcode_valid :: "fz_context \<Rightarrow> bool" where
  "errcode_valid ctx = (sint FZ_ERROR_NONE \<le> sint (error_errcode ctx))"

definition fz_caught :: "fz_context \<Rightarrow> c_int outcome" where
  "fz_caught ctx =
     (if errcode_valid ctx then Return (error_errcode ctx) ctx else Assert_failed ctx)"

definition fz_caught_message :: "fz_context \<Rightarrow> string outcome" where
  "fz_caught_message ctx =
     (if errcode_valid ctx then Return (error_message ctx) ctx else Assert_failed ctx)"

definition fz_vthrow :: "fitz_h \<Rightarrow> c_int \<Rightarrow> string \<Rightarrow> fz_context \<Rightarrow> unit outcome" where
  "fz_vthrow h code txt ctx =
     (let ctx1 = ctx\<lparr>error_errcode := code\<rparr>;
          ctx2 = ctx1\<lparr>error_message := fz_vsnprintf (sizeof_error_message h) txt\<rparr>;
          ctx3 = (if code \<noteq> FZ_ERROR_ABORT h
                  then fprintf_stderr (error_line (error_message ctx2)) (fz_flush_warnings ctx2)
                  else ctx2)
      in throw ctx3)"

definition fz_throw :: "fitz_h \<Rightarrow> c_int \<Rightarrow> string \<Rightarrow> fz_context \<Rightarrow> unit outcome" where
  "fz_throw h code txt ctx = fz_vthrow h code txt ctx"

definition fz_rethrow :: "fz_context \<Rightarrow> unit outcome" where
  "fz_rethrow ctx = (if errcode_valid ctx then throw ctx else Assert_failed ctx)"

definition fz_rethrow_if :: "fz_context \<Rightarrow> c_int \<Rightarrow> unit outcome" where
  "fz_rethrow_if ctx err =
     (if errcode_valid ctx
      then (if error_errcode ctx = err then fz_rethrow ctx else Return () ctx)
      else Assert_failed ctx)"

section \<open>The try/always/catch protocol\<close>

text \<open>
  Modelled from the spec: the context as its constructor leaves it (the constructor is
  not part of \<^verbatim>\<open>error.c\<close>): no active frame, so the top is below the base of the
  stack; no stored error; no pending warning, count 0; nothing written yet.
\<close>

definition fz_new_context :: "nat \<Rightarrow> fz_context" where
  "fz_new_context n =
     \<lparr>error_top = -1, error_stack = replicate n 0, error_errcode = FZ_ERROR_NONE,
      error_message = [], warn_message = [], warn_count = 0, stderr = []\<rparr>"

text \<open>
  Modelled from the spec: entering the always region, the macro \<^verbatim>\<open>fz_always\<close> of
  the header. It adds 1 to the completion code of the top frame, but only if the code is
  below 3, and the always region runs only then; the comment above \<^verbatim>\<open>throw\<close> in
  \<^verbatim>\<open>error.c\<close> says the same. The result tells whether the region is entered.
\<close>

definition fz_always :: "fz_context \<Rightarrow> bool outcome" where
  "fz_always ctx =
     (if in_stack ctx
      then (if sint (top_code ctx) < 3
            then Return True (set_top_code (top_code ctx + 1) ctx)
            else Return False ctx)
      else Out_of_bounds)"

text \<open>
  Modelled from the spec: entering the catch region, the macro \<^verbatim>\<open>fz_catch\<close> of the
  header. The frame is popped and its completion code is observed; the result is that
  code. The body of the catch region runs when the code is above 1.
\<close>

definition fz_catch :: "fz_context \<Rightarrow> c_int outcome" where
  "fz_catch ctx =
     (if in_stack ctx
      then Return (top_code ctx) (ctx\<lparr>error_top := error_top ctx - 1\<rparr>)
      else Out_of_bounds)"

definition catch_body_runs :: "c_int \<Rightarrow> bool" where
  "catch_body_runs code = (1 < sint code)"

text \<open>
  How the body of a try region or of an always region ends: it runs to its end, or it
  calls \<^verbatim>\<open>fz_throw\<close> with an error code and a message.
\<close>

datatype body = Completes | Throws c_int string

fun run_body :: "fitz_h \<Rightarrow> body \<Rightarrow> fz_context \<Rightarrow> unit outcome" where
  "run_body h Completes ctx = Return () ctx"
| "run_body h (Throws code msg) ctx = fz_throw h code msg ctx"

text \<open>
  The always region of a frame. A jump out of its body lands at the frame's saved
  continuation, from where control comes back to the test of \<^verbatim>\<open>fz_always\<close>; the
  continuation is saved only when \<^verbatim>\<open>fz_push_try\<close> returned 1 (\<open>armed\<close>), and a jump
  to a buffer that was never saved is left as the outcome.
\<close>

function always_region :: "fitz_h \<Rightarrow> bool \<Rightarrow> body \<Rightarrow> fz_context \<Rightarrow> unit outcome" where
  "always_region h armed b ctx =
     (case fz_always ctx of
        Return entered ctx1 \<Rightarrow>
          (if entered
           then (case run_body h b ctx1 of
                   Longjmp ctx2 \<Rightarrow> if armed then always_region h armed b ctx2 else Longjmp ctx2
                 | Return u c \<Rightarrow> Return u c
                 | Exit c \<Rightarrow> Exit c
                 | Assert_failed c \<Rightarrow> Assert_failed c
                 | Out_of_bounds \<Rightarrow> Out_of_bounds)
           else Return () ctx1)
      | Longjmp c \<Rightarrow> Longjmp c
      | Exit c \<Rightarrow> Exit c
      | Assert_failed c \<Rightarrow> Assert_failed c
      | Out_of_bounds \<Rightarrow> Out_of_bounds)"
  by pat_completeness auto
termination
proof (relation "measure (\<lambda>(h, armed, b, ctx). nat (3 - sint (top_code ctx)))", goal_cases)
  case 1
  show ?case by simp
next
  case (2 h armed b ctx entered ctx1 ctx2)
  let ?c = "top_code ctx"
  from 2 have a: "in_stack ctx" "sint ?c < 3" "ctx1 = set_top_code (?c + 1) ctx"
    by (auto simp: fz_always_def split: if_splits)
  from a(1) have n: "nat (error_top ctx) < length (error_stack ctx)"
    by (simp add: in_stack_def nelem_stack_def nat_less_iff)
  from 2 have "\<exists>code msg. fz_vthrow h code msg ctx1 = Longjmp ctx2"
    by (cases b) (auto simp: fz_throw_def)
  then obtain code msg where "fz_vthrow h code msg ctx1 = Longjmp ctx2"
    by blast
  then have "top_code ctx2 = top_code ctx1 + 2"
    by (auto simp: fz_vthrow_def throw_def Let_def in_stack_def nelem_stack_def top_code_def
        set_top_code_def fprintf_stderr_def fz_flush_warnings_def split: if_splits)
  moreover have "top_code ctx1 = ?c + 1"
    using a(3) n by (simp add: top_code_def set_top_code_def)
  ultimately have "top_code ctx2 = ?c + 3"
    by simp
  moreover have "sint (?c + 3) = signed_take_bit 31 (sint ?c + 3)"
    by (simp add: sint_word_add)
  moreover have "signed_take_bit 31 (sint ?c + 3) = sint ?c + 3"
    using a(2) sint_ge [of ?c] by (simp add: signed_take_bit_int_eq_self)
  ultimately have "sint (top_code ctx2) = sint ?c + 3"
    by simp
  then show ?case
    using a(2) by simp
qed

declare always_region.simps [simp del]

text \<open>
  One try/always/catch region, as the macros \<^verbatim>\<open>fz_try\<close>, \<^verbatim>\<open>fz_always\<close> and
  \<^verbatim>\<open>fz_catch\<close> lay it out: \<^verbatim>\<open>fz_push_try\<close>; the try body, if the push returned 1;
  the always region, if the program has one; the entry into the catch region. The result
  is the completion code observed there.
\<close>

definition try_always_catch ::
    "fitz_h \<Rightarrow> body \<Rightarrow> body option \<Rightarrow> fz_context \<Rightarrow> c_int outcome" where
  "try_always_catch h try_body always_body ctx =
     and_then (fz_push_try h ctx) (\<lambda>r ctx1.
       and_then (if r \<noteq> 0
                 then (case run_body h try_body ctx1 of
                         Longjmp c \<Rightarrow> Return () c
                       | other \<Rightarrow> other)
                 else Return () ctx1) (\<lambda>_ ctx2.
         and_then (case always_body of
                     None \<Rightarrow> Return () ctx2
                   | Some b \<Rightarrow> always_region h (r \<noteq> 0) b ctx2) (\<lambda>_ ctx3.
           fz_catch ctx3)))"

text \<open>
  The table of the completion codes, written from the words of the spec: the code tells
  whether the try body threw, whether an always region is present, and whether that
  region threw.
\<close>

fun spec_code :: "body \<Rightarrow> body option \<Rightarrow> c_int" where
  "spec_code Completes None = 0"
| "spec_code Completes (Some Completes) = 1"
| "spec_code (Throws c m) None = 2"
| "spec_code (Throws c m) (Some Completes) = 3"
| "spec_code Completes (Some (Throws c m)) = 3"
| "spec_code (Throws c m) (Some (Throws c' m')) = 5"

text \<open>
  Sequences of operations on the frame stack. A throw that finds a frame continues in the
  region of that frame, so the run goes on from the state at the jump.
\<close>

datatype stack_op = Push_try | Throw | Always | Catch

fun step :: "fitz_h \<Rightarrow> stack_op \<Rightarrow> fz_context \<Rightarrow> unit outcome" where
  "step h Push_try ctx = and_then (fz_push_try h ctx) (\<lambda>_. Return ())"
| "step h Throw ctx = (case throw ctx of Longjmp c \<Rightarrow> Return () c | other \<Rightarrow> other)"
| "step h Always ctx = and_then (fz_always ctx) (\<lambda>_. Return ())"
| "step h Catch ctx = and_then (fz_catch ctx) (\<lambda>_. Return ())"

fun run :: "fitz_h \<Rightarrow> stack_op list \<Rightarrow> fz_context \<Rightarrow> unit outcome" where
  "run h [] ctx = Return () ctx"
| "run h (op # ops) ctx = and_then (step h op ctx) (\<lambda>_. run h ops)"



section \<open>Notions used in the statements\<close>

text \<open>What \<^verbatim>\<open>fz_flush_warnings\<close> writes: the summary of the pending repeats, if any.\<close>

definition flush_output :: "fz_context \<Rightarrow> string list" where
  "flush_output ctx =
     (if 1 < sint (warn_count ctx) then [repeated_line (warn_count ctx)] else [])"

text \<open>
  The context after \<^verbatim>\<open>fz_vthrow\<close> and \<^verbatim>\<open>fz_fake_throw\<close> have stored the error and,
  unless the code is \<^verbatim>\<open>FZ_ERROR_ABORT\<close>, flushed the warnings and written the message.
\<close>

definition recorded :: "fitz_h \<Rightarrow> c_int \<Rightarrow> string \<Rightarrow> fz_context \<Rightarrow> fz_context" where
  "recorded h code t ctx =
     (if code \<noteq> FZ_ERROR_ABORT h
      then ctx\<lparr>error_errcode := code,
               error_message := fz_vsnprintf (sizeof_error_message h) t,
               warn_message := [], warn_count := 0,
               stderr := stderr ctx @ flush_output ctx @
                         [error_line (fz_vsnprintf (sizeof_error_message h) t)]\<rparr>
      else ctx\<lparr>error_errcode := code,
               error_message := fz_vsnprintf (sizeof_error_message h) t\<rparr>)"

text \<open>
  The throw whose error the last-error record holds when the catch region is entered:
  the one of the always region if that region throws, otherwise the one of the try body.
\<close>

fun last_throw :: "body \<Rightarrow> body option \<Rightarrow> (c_int \<times> string) option" where
  "last_throw tb (Some (Throws c m)) = Some (c, m)"
| "last_throw (Throws c m) (Some Completes) = Some (c, m)"
| "last_throw (Throws c m) None = Some (c, m)"
| "last_throw Completes (Some Completes) = None"
| "last_throw Completes None = None"

text \<open>A sample header, for the concrete instances below.\<close>

definition example_h :: fitz_h where
  "example_h = \<lparr>FZ_ERROR_GENERIC = 1, FZ_ERROR_ABORT = 3,
                 sizeof_warn_message = 256, sizeof_error_message = 256\<rparr>"

section \<open>The warning log\<close>

lemma c_string_idem: "c_string (c_string s) = c_string s"
  by (simp add: c_string_def)

lemma length_fz_vsnprintf: "length (fz_vsnprintf n t) \<le> n - 1"
proof -
  have "length (takeWhile (\<lambda>c. c \<noteq> CHR 0x00) (take (n - 1) t)) \<le> length (take (n - 1) t)"
    by (rule length_takeWhile_le)
  then show ?thesis
    by (simp add: fz_vsnprintf_def c_string_def)
qed

lemma fz_strlcpy_fz_vsnprintf: "fz_strlcpy (fz_vsnprintf n t) n = fz_vsnprintf n t"
  using length_fz_vsnprintf [of n t]
  by (simp add: fz_strlcpy_def fz_vsnprintf_def c_string_idem)

lemma fz_vsnprintf_fits:
  "length t < n \<Longrightarrow> CHR 0x00 \<notin> set t \<Longrightarrow> fz_vsnprintf n t = t"
  by (auto simp: fz_vsnprintf_def c_string_def)

lemma fz_flush_warnings_eq:
  "fz_flush_warnings ctx =
     ctx\<lparr>warn_message := [], warn_count := 0, stderr := stderr ctx @ flush_output ctx\<rparr>"
  by (simp add: fz_flush_warnings_def flush_output_def fprintf_stderr_def)

lemma fz_vwarn_same:
  "fz_vsnprintf (sizeof_warn_message h) t = warn_message ctx \<Longrightarrow>
   fz_vwarn h t ctx = ctx\<lparr>warn_count := warn_count ctx + 1\<rparr>"
  by (simp add: fz_vwarn_def)

lemma fz_vwarn_other:
  "fz_vsnprintf (sizeof_warn_message h) t \<noteq> warn_message ctx \<Longrightarrow>
   fz_vwarn h t ctx =
     ctx\<lparr>warn_message := fz_vsnprintf (sizeof_warn_message h) t, warn_count := 1,
         stderr := stderr ctx @ flush_output ctx @
                   [warning_line (fz_vsnprintf (sizeof_warn_message h) t)]\<rparr>"
  by (simp add: fz_vwarn_def Let_def fz_flush_warnings_eq fprintf_stderr_def
      fz_strlcpy_fz_vsnprintf)

lemma fz_warn_eq: "fz_warn h = fz_vwarn h"
  by (rule ext)+ (simp add: fz_warn_def)

lemma funpow_fz_vwarn_same:
  "fz_vsnprintf (sizeof_warn_message h) t = warn_message ctx \<Longrightarrow>
   (fz_vwarn h t ^^ k) ctx = ctx\<lparr>warn_count := warn_count ctx + of_nat k\<rparr>"
proof (induction k)
  case 0
  then show ?case by simp
next
  case (Suc k)
  then show ?case by (simp add: fz_vwarn_same add.assoc add.commute)
qed

text \<open>
  A run of \<open>N\<close> warnings with one text, begun where no repeat of that text is pending:
  the text is written at most once, and the count ends as \<open>N\<close> in 32 bits.
\<close>

lemma funpow_fz_vwarn_run:
  assumes "warn_message ctx = fz_vsnprintf (sizeof_warn_message h) t \<longrightarrow> warn_count ctx = 0"
    and "1 \<le> N"
  shows "(fz_vwarn h t ^^ N) ctx =
         ctx\<lparr>warn_message := fz_vsnprintf (sizeof_warn_message h) t,
             warn_count := of_nat N,
             stderr := stderr ctx @
                 (if warn_message ctx = fz_vsnprintf (sizeof_warn_message h) t then []
                  else flush_output ctx @
                       [warning_line (fz_vsnprintf (sizeof_warn_message h) t)])\<rparr>"
proof (cases "warn_message ctx = fz_vsnprintf (sizeof_warn_message h) t")
  case True
  with assms(1) have "warn_count ctx = 0" by simp
  with True show ?thesis
    by (simp add: funpow_fz_vwarn_same)
next
  case False
  let ?buf = "fz_vsnprintf (sizeof_warn_message h) t"
  let ?c1 = "ctx\<lparr>warn_message := ?buf, warn_count := 1,
                  stderr := stderr ctx @ flush_output ctx @ [warning_line ?buf]\<rparr>"
  from assms(2) obtain k where N: "N = Suc k"
    by (cases N) auto
  have "(fz_vwarn h t ^^ N) ctx = (fz_vwarn h t ^^ k) (fz_vwarn h t ctx)"
    by (simp add: N funpow_swap1)
  also have "fz_vwarn h t ctx = ?c1"
    using False by (simp add: fz_vwarn_other)
  also have "(fz_vwarn h t ^^ k) ?c1 = ?c1\<lparr>warn_count := warn_count ?c1 + of_nat k\<rparr>"
    by (rule funpow_fz_vwarn_same) simp
  finally show ?thesis
    using False by (simp add: N)
qed

lemma sint_of_nat_small: "n < 2 ^ 31 \<Longrightarrow> sint (of_nat n :: c_int) = int n"
  by (simp add: signed_of_nat signed_take_bit_int_eq_self)

text \<open>
  Claim C7, as amended. Three calls of \<^verbatim>\<open>fz_warn\<close> with the text "disk full" and then
  one with "done", from a context with no pending warning, write three lines in this
  order: the warning "disk full", the summary "... repeated 3 times ...", the warning
  "done". The summary counts all three occurrences. The buffer must hold the nine
  characters of "disk full".
\<close>

theorem warn_disk_full_example:
  assumes "9 < sizeof_warn_message h" and "warn_message ctx = []" and "warn_count ctx = 0"
  shows "stderr (fz_warn h ''done''
           (fz_warn h ''disk full'' (fz_warn h ''disk full'' (fz_warn h ''disk full'' ctx)))) =
         stderr ctx @ [''warning: disk full'' @ newline,
                       ''warning: ... repeated 3 times ...'' @ newline,
                       ''warning: done'' @ newline]"
proof -
  let ?n = "sizeof_warn_message h"
  have a: "fz_vsnprintf ?n ''disk full'' = ''disk full''"
    using assms(1) by (simp add: fz_vsnprintf_fits)
  have b: "fz_vsnprintf ?n ''done'' = ''done''"
    using assms(1) by (simp add: fz_vsnprintf_fits)
  have 1: "fz_vwarn h ''disk full'' ctx =
      ctx\<lparr>warn_message := ''disk full'', warn_count := 1,
          stderr := stderr ctx @ [warning_line ''disk full'']\<rparr>"
    using assms(2,3) by (simp add: fz_vwarn_other a flush_output_def)
  show ?thesis
    unfolding fz_warn_def 1
    by (simp add: fz_vwarn_same fz_vwarn_other a b flush_output_def repeated_line_def
        warning_line_def printf_d_def decimal.simps)
qed

theorem warn_disk_full_example_witness:
  "9 < sizeof_warn_message example_h \<and>
   warn_message (fz_new_context 0) = [] \<and> warn_count (fz_new_context 0) = 0 \<and>
   stderr (fz_warn example_h ''done''
     (fz_warn example_h ''disk full'' (fz_warn example_h ''disk full''
       (fz_warn example_h ''disk full'' (fz_new_context 0))))) =
     [''warning: disk full'' @ newline,
      ''warning: ... repeated 3 times ...'' @ newline,
      ''warning: done'' @ newline]"
proof -
  have h: "9 < sizeof_warn_message example_h"
    by (simp add: example_h_def)
  have m: "warn_message (fz_new_context 0) = []" and c: "warn_count (fz_new_context 0) = 0"
    by (simp_all add: fz_new_context_def)
  have "stderr (fz_new_context 0) = []"
    by (simp add: fz_new_context_def)
  with warn_disk_full_example [OF h m c] h m c show ?thesis
    by simp
qed

text \<open>
  Claim C7 as the spec states it fails: the summary line of that log does not say
  "repeated 2 times".
\<close>

theorem warn_disk_full_not_2_times:
  "stderr (fz_warn example_h ''done''
     (fz_warn example_h ''disk full'' (fz_warn example_h ''disk full''
       (fz_warn example_h ''disk full'' (fz_new_context 0))))) \<noteq>
     [''warning: disk full'' @ newline,
      ''warning: ... repeated 2 times ...'' @ newline,
      ''warning: done'' @ newline]"
proof -
  let ?n = "sizeof_warn_message example_h"
  have a: "fz_vsnprintf ?n ''disk full'' = ''disk full''"
    by (simp add: fz_vsnprintf_fits example_h_def)
  have b: "fz_vsnprintf ?n ''done'' = ''done''"
    by (simp add: fz_vsnprintf_fits example_h_def)
  have 1: "fz_vwarn example_h ''disk full'' (fz_new_context 0) =
      (fz_new_context 0)\<lparr>warn_message := ''disk full'', warn_count := 1,
          stderr := [warning_line ''disk full'']\<rparr>"
    by (simp add: fz_vwarn_other a flush_output_def fz_new_context_def)
  show ?thesis
    unfolding fz_warn_def 1
    by (simp add: fz_vwarn_same fz_vwarn_other a b flush_output_def repeated_line_def
        warning_line_def printf_d_def decimal.simps)
qed

text \<open>
  Claim C6, as amended. Let \<open>N\<close> consecutive calls of \<^verbatim>\<open>fz_warn\<close> format to one text,
  with \<open>1 \<le> N < 2^31\<close> (the repeat count is a 32-bit \<^verbatim>\<open>int\<close>), begun where no
  repeat of that text is pending, and let the next call format to a different text. The
  \<open>N\<close> calls write no summary of their own: they write the text once, after the
  summary that flushes the message pending before them, or nothing if the text is the
  empty pending message of a flushed log. The next call writes no summary if \<open>N = 1\<close>
  and exactly one line "... repeated N times ..." if \<open>N > 1\<close>, immediately before the
  new message.
\<close>

theorem warn_repeat_summary:
  assumes "1 \<le> N" and "N < 2 ^ 31"
    and "fz_vsnprintf (sizeof_warn_message h) other \<noteq> fz_vsnprintf (sizeof_warn_message h) t"
    and "warn_message ctx = fz_vsnprintf (sizeof_warn_message h) t \<longrightarrow> warn_count ctx = 0"
  shows "stderr ((fz_warn h t ^^ N) ctx) =
           stderr ctx @
           (if warn_message ctx = fz_vsnprintf (sizeof_warn_message h) t then []
            else flush_output ctx @ [warning_line (fz_vsnprintf (sizeof_warn_message h) t)]) \<and>
         stderr (fz_warn h other ((fz_warn h t ^^ N) ctx)) =
           stderr ((fz_warn h t ^^ N) ctx) @
           (if N = 1 then []
            else [''warning: ... repeated '' @ decimal N @ '' times ...'' @ newline]) @
           [warning_line (fz_vsnprintf (sizeof_warn_message h) other)]"
proof -
  note run = funpow_fz_vwarn_run [OF assms(4) assms(1)]
  have s: "sint (of_nat N :: c_int) = int N"
    using assms(2) by (rule sint_of_nat_small)
  have "flush_output ((fz_vwarn h t ^^ N) ctx) =
        (if N = 1 then [] else [''warning: ... repeated '' @ decimal N @ '' times ...'' @ newline])"
    using assms(1) by (auto simp: run flush_output_def s repeated_line_def printf_d_def)
  then show ?thesis
    using assms(3) by (simp add: fz_warn_eq fz_vwarn_other run)
qed

theorem warn_repeat_summary_witness:
  "(1::nat) \<le> 2 \<and> (2::nat) < 2 ^ 31 \<and>
   fz_vsnprintf (sizeof_warn_message example_h) ''b'' \<noteq>
     fz_vsnprintf (sizeof_warn_message example_h) ''a'' \<and>
   warn_message (fz_new_context 0) \<noteq> fz_vsnprintf (sizeof_warn_message example_h) ''a'' \<and>
   stderr (fz_warn example_h ''b'' ((fz_warn example_h ''a'' ^^ 2) (fz_new_context 0))) =
     [''warning: a'' @ newline, ''warning: ... repeated 2 times ...'' @ newline,
      ''warning: b'' @ newline]"
proof -
  have a: "fz_vsnprintf (sizeof_warn_message example_h) ''a'' = ''a''"
    and b: "fz_vsnprintf (sizeof_warn_message example_h) ''b'' = ''b''"
    by (simp_all add: fz_vsnprintf_fits example_h_def)
  have i: "warn_message (fz_new_context 0) = []" "warn_count (fz_new_context 0) = 0"
    "stderr (fz_new_context 0) = []"
    by (simp_all add: fz_new_context_def)
  have d: "decimal 2 = ''2''"
    by (simp add: decimal.simps)
  from warn_repeat_summary [of 2 example_h "''b''" "''a''" "fz_new_context 0"]
  show ?thesis
    by (simp add: a b i d flush_output_def warning_line_def)
qed

text \<open>
  Claim C6 as the spec states it, for every \<open>N \<ge> 1\<close>, fails where the 32-bit count
  wraps around: after \<open>2^31\<close> identical warnings the count reads as negative, and the
  next, different warning is written with no summary line before it.
\<close>

theorem warn_repeat_summary_wraps:
  "stderr (fz_warn example_h ''b''
     ((fz_warn example_h ''a'' ^^ 2147483648) (fz_new_context 0))) =
     [''warning: a'' @ newline, ''warning: b'' @ newline]"
proof -
  have a: "fz_vsnprintf (sizeof_warn_message example_h) ''a'' = ''a''"
    by (simp add: fz_vsnprintf_fits example_h_def)
  have b: "fz_vsnprintf (sizeof_warn_message example_h) ''b'' = ''b''"
    by (simp add: fz_vsnprintf_fits example_h_def)
  have "(fz_vwarn example_h ''a'' ^^ 2147483648) (fz_new_context 0) =
        (fz_new_context 0)\<lparr>warn_message := ''a'', warn_count := 2147483648,
                              stderr := [warning_line ''a'']\<rparr>"
    using funpow_fz_vwarn_run [of "fz_new_context 0" example_h "''a''" 2147483648]
    by (simp add: a fz_new_context_def flush_output_def)
  then show ?thesis
    by (simp add: fz_warn_eq fz_vwarn_other b flush_output_def warning_line_def)
qed

text \<open>
  Claim C10. In a context with no pending warning (empty message, count 0), a call of
  \<^verbatim>\<open>fz_warn\<close> whose formatted text is empty is taken for a repeat of the empty
  pending message: it writes nothing and only sets the count to 1. The empty text is
  never written on its own: a different warning after it is written with no line for
  it, and after two such calls the different warning is preceded by the summary
  "... repeated 2 times ...".
\<close>

theorem warn_empty_text_first:
  assumes "warn_message ctx = []" and "warn_count ctx = 0"
    and "fz_vsnprintf (sizeof_warn_message h) t = []"
    and "fz_vsnprintf (sizeof_warn_message h) other \<noteq> []"
  shows "fz_warn h t ctx = ctx\<lparr>warn_count := 1\<rparr> \<and>
         stderr (fz_warn h other (fz_warn h t ctx)) =
           stderr ctx @ [warning_line (fz_vsnprintf (sizeof_warn_message h) other)] \<and>
         stderr (fz_warn h other (fz_warn h t (fz_warn h t ctx))) =
           stderr ctx @ [''warning: ... repeated 2 times ...'' @ newline,
                         warning_line (fz_vsnprintf (sizeof_warn_message h) other)]"
  using assms
  by (simp add: fz_warn_def fz_vwarn_same fz_vwarn_other flush_output_def repeated_line_def
      printf_d_def decimal.simps)

theorem warn_empty_text_first_witness:
  "warn_message (fz_new_context 0) = [] \<and> warn_count (fz_new_context 0) = 0 \<and>
   fz_vsnprintf (sizeof_warn_message example_h) [] = [] \<and>
   fz_vsnprintf (sizeof_warn_message example_h) ''x'' \<noteq> [] \<and>
   fz_warn example_h [] (fz_new_context 0) = (fz_new_context 0)\<lparr>warn_count := 1\<rparr> \<and>
   stderr (fz_warn example_h ''x'' (fz_warn example_h [] (fz_new_context 0))) =
     [''warning: x'' @ newline] \<and>
   stderr (fz_warn example_h ''x''
     (fz_warn example_h [] (fz_warn example_h [] (fz_new_context 0)))) =
     [''warning: ... repeated 2 times ...'' @ newline, ''warning: x'' @ newline]"
proof -
  have x: "fz_vsnprintf (sizeof_warn_message example_h) ''x'' = ''x''"
    by (simp add: fz_vsnprintf_fits example_h_def)
  have e: "fz_vsnprintf (sizeof_warn_message example_h) [] = []"
    by (simp add: fz_vsnprintf_fits example_h_def)
  have ne: "fz_vsnprintf (sizeof_warn_message example_h) ''x'' \<noteq> []"
    by (simp add: x)
  have m: "warn_message (fz_new_context 0) = []" and c: "warn_count (fz_new_context 0) = 0"
    and s: "stderr (fz_new_context 0) = []"
    by (simp_all add: fz_new_context_def)
  note r = warn_empty_text_first [OF m c e ne]
  have 1: "fz_warn example_h [] (fz_new_context 0) = (fz_new_context 0)\<lparr>warn_count := 1\<rparr>"
    using r by (rule conjunct1)
  have 2: "stderr (fz_warn example_h ''x'' (fz_warn example_h [] (fz_new_context 0))) =
     [''warning: x'' @ newline]"
    using r [THEN conjunct2, THEN conjunct1] by (simp add: x s warning_line_def)
  have 3: "stderr (fz_warn example_h ''x''
     (fz_warn example_h [] (fz_warn example_h [] (fz_new_context 0)))) =
     [''warning: ... repeated 2 times ...'' @ newline, ''warning: x'' @ newline]"
    using r [THEN conjunct2, THEN conjunct2] by (simp add: x s warning_line_def)
  from m c e ne 1 2 3 show ?thesis
    by (intro conjI)
qed

section \<open>The error stack\<close>

subsection \<open>Frames, throwing and reporting\<close>

lemma in_stack_nat: "in_stack ctx \<Longrightarrow> nat (error_top ctx) < length (error_stack ctx)"
  by (simp add: in_stack_def nelem_stack_def nat_less_iff)

lemma set_top_code_fields [simp]:
  "error_top (set_top_code v ctx) = error_top ctx"
  "error_errcode (set_top_code v ctx) = error_errcode ctx"
  "error_message (set_top_code v ctx) = error_message ctx"
  "warn_message (set_top_code v ctx) = warn_message ctx"
  "warn_count (set_top_code v ctx) = warn_count ctx"
  "stderr (set_top_code v ctx) = stderr ctx"
  "nelem_stack (set_top_code v ctx) = nelem_stack ctx"
  "in_stack (set_top_code v ctx) = in_stack ctx"
  "set_top_code v (set_top_code w ctx) = set_top_code v ctx"
  by (simp_all add: set_top_code_def nelem_stack_def in_stack_def)

lemma error_stack_set_top_code:
  "error_stack (set_top_code v ctx) = (error_stack ctx)[nat (error_top ctx) := v]"
  by (simp add: set_top_code_def)

lemma top_code_set_top_code [simp]: "in_stack ctx \<Longrightarrow> top_code (set_top_code v ctx) = v"
  by (simp add: top_code_def set_top_code_def in_stack_nat)

lemma push_fields [simp]:
  "nelem_stack (ctx\<lparr>error_top := k\<rparr>) = nelem_stack ctx"
  "in_stack (ctx\<lparr>error_top := k\<rparr>) = (0 \<le> k \<and> k < nelem_stack ctx)"
  by (simp_all add: nelem_stack_def in_stack_def)

lemma top_code_push [simp]:
  "top_code (ctx\<lparr>error_top := k\<rparr>) = error_stack ctx ! nat k"
  by (simp add: top_code_def)

lemma recorded_fields [simp]:
  "error_top (recorded h code t ctx) = error_top ctx"
  "error_stack (recorded h code t ctx) = error_stack ctx"
  "error_errcode (recorded h code t ctx) = code"
  "error_message (recorded h code t ctx) = fz_vsnprintf (sizeof_error_message h) t"
  "nelem_stack (recorded h code t ctx) = nelem_stack ctx"
  "in_stack (recorded h code t ctx) = in_stack ctx"
  "top_code (recorded h code t ctx) = top_code ctx"
  by (simp_all add: recorded_def nelem_stack_def in_stack_def top_code_def)

lemma recorded_set_top_code:
  "recorded h code t (set_top_code v ctx) = set_top_code v (recorded h code t ctx)"
  by (simp add: recorded_def set_top_code_def flush_output_def)

lemma fz_vthrow_eq: "fz_vthrow h code t ctx = throw (recorded h code t ctx)"
  by (simp add: fz_vthrow_def recorded_def Let_def fz_flush_warnings_eq fprintf_stderr_def
      flush_output_def)

lemma throw_in_stack: "in_stack ctx \<Longrightarrow> throw ctx = Longjmp (set_top_code (top_code ctx + 2) ctx)"
  by (simp add: throw_def in_stack_def)

lemma throw_empty:
  "error_top ctx < 0 \<Longrightarrow> throw ctx = Exit (ctx\<lparr>stderr := stderr ctx @ [uncaught_line (error_message ctx)]\<rparr>)"
  by (simp add: throw_def fprintf_stderr_def)

lemma throw_not_Return: "throw ctx \<noteq> Return v c"
  by (simp add: throw_def)

lemma fz_push_try_room:
  "- 1 \<le> error_top ctx \<Longrightarrow> error_top ctx + 2 < nelem_stack ctx \<Longrightarrow>
   fz_push_try h ctx = Return 1 (set_top_code 0 (ctx\<lparr>error_top := error_top ctx + 1\<rparr>))"
  by (simp add: fz_push_try_def Let_def)

lemma fz_fake_throw_eq:
  "fz_fake_throw h code t ctx =
     (if - 1 \<le> error_top ctx \<and> error_top ctx + 1 < nelem_stack ctx
      then Return 0 (set_top_code 2 ((recorded h code t ctx)\<lparr>error_top := error_top ctx + 1\<rparr>))
      else Out_of_bounds)"
  by (simp add: fz_fake_throw_def recorded_def Let_def fz_flush_warnings_eq fprintf_stderr_def
      flush_output_def nelem_stack_def in_stack_def)

lemma fz_always_enter:
  "in_stack ctx \<Longrightarrow> sint (top_code ctx) < 3 \<Longrightarrow>
   fz_always ctx = Return True (set_top_code (top_code ctx + 1) ctx)"
  by (simp add: fz_always_def)

lemma fz_always_skip:
  "in_stack ctx \<Longrightarrow> \<not> sint (top_code ctx) < 3 \<Longrightarrow> fz_always ctx = Return False ctx"
  by (simp add: fz_always_def)

lemma fz_catch_in_stack:
  "in_stack ctx \<Longrightarrow> fz_catch ctx = Return (top_code ctx) (ctx\<lparr>error_top := error_top ctx - 1\<rparr>)"
  by (simp add: fz_catch_def)

lemmas eval_defs = fz_new_context_def fz_push_try_def fz_fake_throw_def Let_def in_stack_def
  nelem_stack_def set_top_code_def top_code_def fz_flush_warnings_def fprintf_stderr_def
  fz_vsnprintf_def c_string_def example_h_def error_line_def FZ_ERROR_NONE_def

lemmas region_defs = try_always_catch_def fz_throw_def fz_vthrow_def throw_def fz_catch_def
  errcode_valid_def fz_rethrow_if_def fz_rethrow_def

text \<open>
  Claim C4. When \<^verbatim>\<open>throw\<close> finds no frame (the top is below the base of the stack),
  it writes exactly one line, "uncaught exception: " with the stored error message, and
  ends the process. Nothing that follows it runs: whatever statement or stack operation
  comes next, the outcome is that exit, with that one line added to the log and
  nothing else changed.
\<close>

theorem throw_uncaught:
  assumes "error_top ctx < 0"
  shows "throw ctx =
           Exit (ctx\<lparr>stderr := stderr ctx @ [''uncaught exception: '' @ error_message ctx @ newline]\<rparr>) \<and>
         and_then (throw ctx) f = 
           Exit (ctx\<lparr>stderr := stderr ctx @ [''uncaught exception: '' @ error_message ctx @ newline]\<rparr>) \<and>
         run h (Throw # ops) ctx =
           Exit (ctx\<lparr>stderr := stderr ctx @ [''uncaught exception: '' @ error_message ctx @ newline]\<rparr>)"
  using assms by (simp add: throw_empty uncaught_line_def)

theorem throw_uncaught_witness:
  "error_top (fz_new_context 0) < 0 \<and>
   throw (fz_new_context 0) =
     Exit ((fz_new_context 0)\<lparr>stderr := [''uncaught exception: '' @ newline]\<rparr>)"
proof -
  have t: "error_top (fz_new_context 0) < 0"
    and s: "stderr (fz_new_context 0) = []" and m: "error_message (fz_new_context 0) = []"
    by (simp_all add: fz_new_context_def)
  have "throw (fz_new_context 0) =
     Exit ((fz_new_context 0)\<lparr>stderr := [''uncaught exception: '' @ newline]\<rparr>)"
    using throw_uncaught [OF t, THEN conjunct1] by (simp add: s m)
  with t show ?thesis
    by simp
qed

text \<open>
  Claim C5. \<^verbatim>\<open>fz_vthrow\<close> stores the code and the formatted message and then calls
  \<^verbatim>\<open>throw\<close>. If the code is not \<^verbatim>\<open>FZ_ERROR_ABORT\<close>, the context handed to
  \<^verbatim>\<open>throw\<close> has the warnings flushed and the log extended by the pending repeat
  summary, if any, followed by the line "error: " with the message, once. If the code is
  \<^verbatim>\<open>FZ_ERROR_ABORT\<close>, the log and the pending warning are as before. In both
  cases the call never returns; with a frame on the stack it ends in the jump to that
  frame, and \<^verbatim>\<open>throw\<close> itself has written nothing.
\<close>

theorem fz_vthrow_log_order:
  "fz_vthrow h code t ctx =
     throw (if code \<noteq> FZ_ERROR_ABORT h
            then ctx\<lparr>error_errcode := code,
                     error_message := fz_vsnprintf (sizeof_error_message h) t,
                     warn_message := [], warn_count := 0,
                     stderr := stderr ctx @ flush_output ctx @
                               [''error: '' @ fz_vsnprintf (sizeof_error_message h) t @ newline]\<rparr>
            else ctx\<lparr>error_errcode := code,
                     error_message := fz_vsnprintf (sizeof_error_message h) t\<rparr>) \<and>
   (\<forall>v c. fz_vthrow h code t ctx \<noteq> Return v c) \<and>
   (in_stack ctx \<longrightarrow>
      (\<exists>c. fz_vthrow h code t ctx = Longjmp c \<and>
           stderr c = stderr ctx @
             (if code \<noteq> FZ_ERROR_ABORT h
              then flush_output ctx @ [''error: '' @ fz_vsnprintf (sizeof_error_message h) t @ newline]
              else []) \<and>
           (if code \<noteq> FZ_ERROR_ABORT h
            then warn_message c = [] \<and> warn_count c = 0
            else warn_message c = warn_message ctx \<and> warn_count c = warn_count ctx)))"
proof -
  have "in_stack ctx \<Longrightarrow>
        fz_vthrow h code t ctx =
          Longjmp (set_top_code (top_code ctx + 2) (recorded h code t ctx))"
    by (simp add: fz_vthrow_eq throw_in_stack)
  moreover have "stderr (recorded h code t ctx) = stderr ctx @
             (if code \<noteq> FZ_ERROR_ABORT h
              then flush_output ctx @ [''error: '' @ fz_vsnprintf (sizeof_error_message h) t @ newline]
              else [])"
    by (simp add: recorded_def error_line_def)
  moreover have "(if code \<noteq> FZ_ERROR_ABORT h
            then warn_message (recorded h code t ctx) = [] \<and> warn_count (recorded h code t ctx) = 0
            else warn_message (recorded h code t ctx) = warn_message ctx \<and>
                 warn_count (recorded h code t ctx) = warn_count ctx)"
    by (simp add: recorded_def)
  ultimately show ?thesis
    by (simp add: fz_vthrow_eq throw_not_Return recorded_def error_line_def)
qed

theorem fz_vthrow_log_order_witness:
  "in_stack ((fz_new_context 2)\<lparr>error_top := 0\<rparr>) \<and>
   (\<exists>c. fz_vthrow example_h 1 ''x'' ((fz_new_context 2)\<lparr>error_top := 0\<rparr>) = Longjmp c \<and>
        stderr c = [''error: x'' @ newline] \<and> warn_message c = [] \<and> warn_count c = 0)"
proof -
  let ?ctx = "(fz_new_context 2)\<lparr>error_top := 0\<rparr>"
  have x: "fz_vsnprintf (sizeof_error_message example_h) ''x'' = ''x''"
    by (simp add: fz_vsnprintf_fits example_h_def)
  have i: "in_stack ?ctx"
    by (simp add: fz_new_context_def nelem_stack_def in_stack_def)
  have a: "(1::c_int) \<noteq> FZ_ERROR_ABORT example_h"
    by (simp add: example_h_def)
  have f: "flush_output ?ctx = []" "stderr ?ctx = []"
    by (simp_all add: flush_output_def fz_new_context_def)
  from fz_vthrow_log_order [of example_h 1 "''x''" ?ctx, THEN conjunct2, THEN conjunct2] i
  have "\<exists>c. fz_vthrow example_h 1 ''x'' ?ctx = Longjmp c \<and>
        stderr c = [''error: x'' @ newline] \<and> warn_message c = [] \<and> warn_count c = 0"
    using a by (simp add: x f)
  with i show ?thesis
    by simp
qed

text \<open>
  Claim C9. With a valid stored error code (what the \<^verbatim>\<open>assert\<close> of
  \<^verbatim>\<open>fz_rethrow_if\<close> demands, and what a prior throw of an error code leaves),
  \<^verbatim>\<open>fz_rethrow_if\<close> rethrows if and only if the stored code equals its argument.
  If it does, the call is \<^verbatim>\<open>fz_rethrow\<close>, which is \<^verbatim>\<open>throw\<close> on the stored
  error: with a frame on the stack it adds 2 to the code of the top frame and jumps to
  it, leaving the error record and the log as they are; with no frame it writes the
  "uncaught exception" line and exits; it never returns. If it does not, the call
  returns with the context unchanged.
\<close>

theorem fz_rethrow_if_iff:
  assumes "errcode_valid ctx"
  shows "(error_errcode ctx = err \<longrightarrow>
            fz_rethrow_if ctx err = fz_rethrow ctx \<and>
            fz_rethrow ctx = throw ctx \<and>
            (in_stack ctx \<longrightarrow>
               fz_rethrow_if ctx err =
                 Longjmp (ctx\<lparr>error_stack := (error_stack ctx)
                            [nat (error_top ctx) := error_stack ctx ! nat (error_top ctx) + 2]\<rparr>)) \<and>
            (error_top ctx < 0 \<longrightarrow>
               fz_rethrow_if ctx err =
                 Exit (ctx\<lparr>stderr := stderr ctx @
                         [''uncaught exception: '' @ error_message ctx @ newline]\<rparr>)) \<and>
            (\<forall>c. fz_rethrow_if ctx err \<noteq> Return () c)) \<and>
         (error_errcode ctx \<noteq> err \<longrightarrow> fz_rethrow_if ctx err = Return () ctx)"
  using assms
  by (simp add: fz_rethrow_if_def fz_rethrow_def throw_not_Return throw_in_stack throw_empty
      set_top_code_def top_code_def uncaught_line_def)

theorem fz_rethrow_if_iff_witness:
  "\<exists>outer inner.
     fz_push_try example_h (fz_new_context 3) = Return 1 outer \<and>
     try_always_catch example_h (Throws 1 ''x'') None outer = Return 2 inner \<and>
     errcode_valid inner \<and> error_errcode inner = 1 \<and> in_stack inner \<and>
     top_code inner = 0 \<and>
     fz_rethrow_if inner 1 =
       Longjmp (inner\<lparr>error_stack := (error_stack inner)
                  [nat (error_top inner) := error_stack inner ! nat (error_top inner) + 2]\<rparr>) \<and>
     fz_rethrow_if inner 3 = Return () inner"
proof -
  have "\<exists>outer inner.
     fz_push_try example_h (fz_new_context 3) = Return 1 outer \<and>
     try_always_catch example_h (Throws 1 ''x'') None outer = Return 2 inner \<and>
     errcode_valid inner \<and> error_errcode inner = 1 \<and> in_stack inner \<and> top_code inner = 0"
    by (simp add: eval_defs region_defs)
  then obtain outer inner where o: "fz_push_try example_h (fz_new_context 3) = Return 1 outer"
    and i: "try_always_catch example_h (Throws 1 ''x'') None outer = Return 2 inner"
    and v: "errcode_valid inner" and e: "error_errcode inner = 1"
    and s: "in_stack inner" and t: "top_code inner = 0"
    by blast
  have n: "error_errcode inner \<noteq> 3"
    by (simp add: e)
  have a: "fz_rethrow_if inner 1 =
       Longjmp (inner\<lparr>error_stack := (error_stack inner)
                  [nat (error_top inner) := error_stack inner ! nat (error_top inner) + 2]\<rparr>)"
    by (rule fz_rethrow_if_iff [OF v, of 1, THEN conjunct1, THEN mp, OF e,
          THEN conjunct2, THEN conjunct2, THEN conjunct1, THEN mp, OF s])
  have b: "fz_rethrow_if inner 3 = Return () inner"
    by (rule fz_rethrow_if_iff [OF v, of 3, THEN conjunct2, THEN mp, OF n])
  from o i v e s t a b show ?thesis
    by blast
qed

subsection \<open>The completion code of a region\<close>

lemma always_region_skip:
  "in_stack ctx \<Longrightarrow> \<not> sint (top_code ctx) < 3 \<Longrightarrow> always_region h armed b ctx = Return () ctx"
  by (subst always_region.simps) (simp add: fz_always_skip)

lemma always_region_Completes:
  "in_stack ctx \<Longrightarrow> sint (top_code ctx) < 3 \<Longrightarrow>
   always_region h armed Completes ctx = Return () (set_top_code (top_code ctx + 1) ctx)"
  by (subst always_region.simps) (simp add: fz_always_enter)

lemma always_region_Throws:
  assumes "in_stack ctx" and "top_code ctx = 0 \<or> top_code ctx = 2"
  shows "always_region h True (Throws code m) ctx =
         Return () (set_top_code (top_code ctx + 3) (recorded h code m ctx))"
proof -
  let ?c1 = "set_top_code (top_code ctx + 1) ctx"
  let ?c2 = "set_top_code (top_code ctx + 3) (recorded h code m ctx)"
  have lt: "sint (top_code ctx) < 3"
    using assms(2) by auto
  have "run_body h (Throws code m) ?c1 = Longjmp ?c2"
    using assms(1) by (simp add: fz_throw_def fz_vthrow_eq throw_in_stack recorded_set_top_code add.assoc)
  moreover have "always_region h True (Throws code m) ?c2 = Return () ?c2"
    using assms by (intro always_region_skip) auto
  ultimately show ?thesis
    using assms(1) lt by (subst always_region.simps) (simp add: fz_always_enter)
qed

lemma try_always_catch_cases:
  assumes "- 1 \<le> error_top ctx" and "error_top ctx + 2 < nelem_stack ctx"
  shows "\<exists>ctx'. try_always_catch h tb ab ctx = Return (spec_code tb ab) ctx' \<and>
               error_top ctx' = error_top ctx \<and>
               take (nat (error_top ctx + 1)) (error_stack ctx') =
                 take (nat (error_top ctx + 1)) (error_stack ctx) \<and>
               (case ab of
                  Some (Throws c m) \<Rightarrow>
                    error_errcode ctx' = c \<and> 
                    error_message ctx' = fz_vsnprintf (sizeof_error_message h) m
                | _ \<Rightarrow> 
                 (case tb of
                   Throws c m \<Rightarrow>
                     error_errcode ctx' = c \<and> 
                     error_message ctx' = fz_vsnprintf (sizeof_error_message h) m
                 | Completes \<Rightarrow> 
                     error_errcode ctx' = error_errcode ctx \<and> error_message ctx' = error_message ctx))"
proof -
  let ?p = "set_top_code 0 (ctx\<lparr>error_top := error_top ctx + 1\<rparr>)"
  have p: "in_stack ?p" "top_code ?p = 0"
    using assms by simp_all
  show ?thesis
  proof (cases tb)
    case Completes
    show ?thesis
    proof (cases ab)
      case None
      with Completes p show ?thesis
        using assms
        by (simp add: try_always_catch_def fz_push_try_room fz_catch_in_stack
            error_stack_set_top_code)
    next
      case (Some b)
      with Completes p show ?thesis
        using assms
        by (cases b) (simp_all add: try_always_catch_def fz_push_try_room fz_catch_in_stack
            always_region_Completes always_region_Throws error_stack_set_top_code)
    qed
  next
    case (Throws c m)
    let ?q = "set_top_code 2 (recorded h c m ?p)"
    have q: "run_body h tb ?p = Longjmp ?q" "in_stack ?q" "top_code ?q = 2"
      using p Throws by (simp_all add: fz_throw_def fz_vthrow_eq throw_in_stack)
    show ?thesis
    proof (cases ab)
      case None
      with Throws q show ?thesis
        using assms
        by (simp add: try_always_catch_def fz_push_try_room fz_catch_in_stack
            error_stack_set_top_code)
    next
      case (Some b)
      with Throws q show ?thesis
        using assms
        by (cases b) (simp_all add: try_always_catch_def fz_push_try_room fz_catch_in_stack
            always_region_Completes always_region_Throws error_stack_set_top_code)
    qed
  qed
qed

lemma spec_code_range: "spec_code tb ab \<in> {0, 1, 2, 3, 5}"
  by (induction tb ab rule: spec_code.induct) simp_all

text \<open>
  Claim C1. Take any context in which \<^verbatim>\<open>fz_push_try\<close> has room, at any depth of
  nesting. Whatever the try body and the always region do, the region reaches its catch
  entry, the completion code observed there is the one the table of the spec gives for
  that combination of events, the top index is back where it was and the frames below
  keep their codes. Over all combinations the observed codes are exactly 0, 1, 2, 3
  and 5; the code 4 is never observed.
\<close>

theorem completion_code_table:
  assumes "- 1 \<le> error_top ctx" and "error_top ctx + 2 < nelem_stack ctx"
  shows "(\<exists>ctx'. try_always_catch h tb ab ctx = Return (spec_code tb ab) ctx' \<and>
                error_top ctx' = error_top ctx \<and>
                take (nat (error_top ctx + 1)) (error_stack ctx') =
                  take (nat (error_top ctx + 1)) (error_stack ctx)) \<and>
         {k. \<exists>tb ab ctx'. try_always_catch h tb ab ctx = Return k ctx'} = {0, 1, 2, 3, 5} \<and>
         (\<forall>tb ab ctx'. try_always_catch h tb ab ctx \<noteq> Return 4 ctx')"
proof -
  note cases = try_always_catch_cases [OF assms, of h]
  have r: "\<exists>ctx'. try_always_catch h tb ab ctx = Return (spec_code tb ab) ctx'" for tb ab
    using cases [of tb ab] by blast
  have sub: "k \<in> {0, 1, 2, 3, 5}" if "try_always_catch h tb ab ctx = Return k ctx'" for k tb ab ctx'
    using r [of tb ab] that spec_code_range [of tb ab] by auto
  have "\<exists>tb ab ctx'. try_always_catch h tb ab ctx = Return k ctx'" if "k \<in> {0, 1, 2, 3, 5}" for k
  proof -
    from that consider "k = 0" | "k = 1" | "k = 2" | "k = 3" | "k = 5"
      by auto
    then show ?thesis
    proof cases
      case 1
      then show ?thesis using r [of Completes None] by auto
    next
      case 2
      then show ?thesis using r [of Completes "Some Completes"] by auto
    next
      case 3
      then show ?thesis using r [of "Throws 0 []" None] by auto
    next
      case 4
      then show ?thesis using r [of "Throws 0 []" "Some Completes"] by auto
    next
      case 5
      then show ?thesis using r [of "Throws 0 []" "Some (Throws 0 [])"] by auto
    qed
  qed
  then have "{k. \<exists>tb ab ctx'. try_always_catch h tb ab ctx = Return k ctx'} = {0, 1, 2, 3, 5}"
    using sub by blast
  moreover have "try_always_catch h tb ab ctx \<noteq> Return 4 ctx'" for tb ab ctx'
    using sub [of tb ab 4 ctx'] by auto
  moreover have "\<exists>ctx'. try_always_catch h tb ab ctx = Return (spec_code tb ab) ctx' \<and>
                error_top ctx' = error_top ctx \<and>
                take (nat (error_top ctx + 1)) (error_stack ctx') =
                  take (nat (error_top ctx + 1)) (error_stack ctx)"
    using cases [of tb ab] by blast
  ultimately show ?thesis
    by blast
qed

theorem completion_code_table_witness:
  "- 1 \<le> error_top (fz_new_context 3) \<and>
   error_top (fz_new_context 3) + 2 < nelem_stack (fz_new_context 3) \<and>
   (\<exists>ctx'. try_always_catch example_h (Throws 1 ''x'') (Some Completes) (fz_new_context 3) =
            Return 3 ctx' \<and> error_top ctx' = - 1)"
proof -
  have a: "- 1 \<le> error_top (fz_new_context 3)"
    and b: "error_top (fz_new_context 3) + 2 < nelem_stack (fz_new_context 3)"
    and t: "error_top (fz_new_context 3) = - 1"
    by (simp_all add: fz_new_context_def nelem_stack_def)
  from completion_code_table [OF a b, of example_h "Throws 1 ''x''" "Some Completes"]
  have "\<exists>ctx'. try_always_catch example_h (Throws 1 ''x'') (Some Completes) (fz_new_context 3) =
            Return 3 ctx' \<and> error_top ctx' = - 1"
    by (simp add: t)
  with a b show ?thesis
    by simp
qed

text \<open>
  Claim C8, as amended. Take a region with room for its frame in which some throw
  happens, and let \<^verbatim>\<open>fz_throw\<close> with a valid error code (not below
  \<^verbatim>\<open>FZ_ERROR_NONE\<close>, as the \<^verbatim>\<open>assert\<close> of the accessors demands) be the last
  throw before the catch entry: the throw of the try body if the always region is
  absent or does not throw, the throw of the always region if it throws. Then the body
  of the catch region is entered, and there \<^verbatim>\<open>fz_caught\<close> returns exactly the code
  of that throw and \<^verbatim>\<open>fz_caught_message\<close> returns its formatted text as the bounded
  buffer holds it: cut to the capacity of the buffer less the terminator.
\<close>

theorem caught_after_last_throw:
  assumes "- 1 \<le> error_top ctx" and "error_top ctx + 2 < nelem_stack ctx"
    and "last_throw tb ab = Some (code, m)"
    and "0 \<le> sint code"
  shows "\<exists>k ctx'. try_always_catch h tb ab ctx = Return k ctx' \<and>
           catch_body_runs k \<and>
           fz_caught ctx' = Return code ctx' \<and>
           fz_caught_message ctx' = Return (fz_vsnprintf (sizeof_error_message h) m) ctx' \<and>
           length (fz_vsnprintf (sizeof_error_message h) m) \<le> sizeof_error_message h - 1"
proof -
  from try_always_catch_cases [OF assms(1,2), of h tb ab]
  obtain ctx' where c: "try_always_catch h tb ab ctx = Return (spec_code tb ab) ctx'"
    and rec: "(case ab of
                  Some (Throws c m) \<Rightarrow>
                    error_errcode ctx' = c \<and>
                    error_message ctx' = fz_vsnprintf (sizeof_error_message h) m
                | _ \<Rightarrow>
                 (case tb of
                   Throws c m \<Rightarrow>
                     error_errcode ctx' = c \<and>
                     error_message ctx' = fz_vsnprintf (sizeof_error_message h) m
                 | Completes \<Rightarrow>
                     error_errcode ctx' = error_errcode ctx \<and> error_message ctx' = error_message ctx))"
    by blast
  from assms(3) rec have e: "error_errcode ctx' = code"
    "error_message ctx' = fz_vsnprintf (sizeof_error_message h) m"
    by (induction tb ab rule: spec_code.induct) auto
  from assms(3) have "catch_body_runs (spec_code tb ab)"
    by (induction tb ab rule: spec_code.induct) (auto simp: catch_body_runs_def)
  moreover have "errcode_valid ctx'"
    using assms(4) e(1) by (simp add: errcode_valid_def FZ_ERROR_NONE_def)
  ultimately show ?thesis
    using c e length_fz_vsnprintf [of "sizeof_error_message h" m]
    by (auto simp: fz_caught_def fz_caught_message_def)
qed

theorem caught_after_last_throw_witness:
  "- 1 \<le> error_top (fz_new_context 3) \<and>
   error_top (fz_new_context 3) + 2 < nelem_stack (fz_new_context 3) \<and>
   last_throw (Throws 1 ''x'') (Some Completes) = Some (1, ''x'') \<and>
   0 \<le> sint (1 :: c_int) \<and>
   (\<exists>k ctx'. try_always_catch example_h (Throws 1 ''x'') (Some Completes) (fz_new_context 3) =
        Return k ctx' \<and>
      catch_body_runs k \<and> fz_caught ctx' = Return 1 ctx' \<and>
      fz_caught_message ctx' = Return ''x'' ctx')"
proof -
  have a: "- 1 \<le> error_top (fz_new_context 3)"
    and b: "error_top (fz_new_context 3) + 2 < nelem_stack (fz_new_context 3)"
    by (simp_all add: fz_new_context_def nelem_stack_def)
  have l: "last_throw (Throws 1 ''x'') (Some Completes) = Some (1, ''x'')"
    by simp
  have c: "0 \<le> sint (1 :: c_int)"
    by simp
  have x: "fz_vsnprintf (sizeof_error_message example_h) ''x'' = ''x''"
    by (simp add: fz_vsnprintf_fits example_h_def)
  from caught_after_last_throw [OF a b l c, of example_h]
  have "\<exists>k ctx'. try_always_catch example_h (Throws 1 ''x'') (Some Completes) (fz_new_context 3) =
        Return k ctx' \<and>
      catch_body_runs k \<and> fz_caught ctx' = Return 1 ctx' \<and>
      fz_caught_message ctx' = Return ''x'' ctx'"
    by (auto simp: x)
  with a b l c show ?thesis
    by simp
qed

text \<open>
  Claim C8 as the spec states it fails for a throw that is not the last one: every
  throw overwrites the last-error record. When the try body throws the code 1 with
  message "x" and the always region then throws the code 2 with message "y", the
  matching catch region is entered with \<^verbatim>\<open>fz_caught\<close> returning 2 and the message
  "y".
\<close>

theorem caught_first_throw_overwritten:
  "\<exists>k c. try_always_catch example_h (Throws 1 ''x'') (Some (Throws 2 ''y'')) (fz_new_context 3) =
           Return k c \<and>
         catch_body_runs k \<and>
         fz_caught c = Return 2 c \<and> fz_caught c \<noteq> Return 1 c \<and>
         fz_caught_message c = Return ''y'' c"
proof -
  have a: "- 1 \<le> error_top (fz_new_context 3)"
    and b: "error_top (fz_new_context 3) + 2 < nelem_stack (fz_new_context 3)"
    by (simp_all add: fz_new_context_def nelem_stack_def)
  have y: "fz_vsnprintf (sizeof_error_message example_h) ''y'' = ''y''"
    by (simp add: fz_vsnprintf_fits example_h_def)
  from try_always_catch_cases [OF a b, of example_h "Throws 1 ''x''" "Some (Throws 2 ''y'')"]
  obtain c where c: "try_always_catch example_h (Throws 1 ''x'') (Some (Throws 2 ''y''))
       (fz_new_context 3) = Return 5 c" "error_errcode c = 2" "error_message c = ''y''"
    by (auto simp: y)
  have "catch_body_runs 5"
    by (simp add: catch_body_runs_def)
  moreover have "fz_caught c = Return 2 c" "fz_caught_message c = Return ''y'' c"
    using c(2,3) by (simp_all add: fz_caught_def fz_caught_message_def errcode_valid_def FZ_ERROR_NONE_def)
  ultimately show ?thesis
    using c(1) by auto
qed

subsection \<open>Exhaustion of the stack\<close>

lemma try_always_catch_refused:
  assumes "- 1 \<le> error_top ctx" and "error_top ctx + 2 = nelem_stack ctx"
  shows "\<exists>c. try_always_catch h tb None ctx = Return 2 c \<and>
             error_top c = error_top ctx \<and>
             error_errcode c = FZ_ERROR_GENERIC h \<and>
             error_message c =
               fz_vsnprintf (sizeof_error_message h) ''exception stack overflow!''"
proof -
  let ?c1 = "set_top_code 2 ((recorded h (FZ_ERROR_GENERIC h) ''exception stack overflow!'' ctx)
                \<lparr>error_top := error_top ctx + 1\<rparr>)"
  have 1: "fz_push_try h ctx = Return 0 ?c1"
    using assms by (simp add: fz_push_try_def fz_fake_throw_eq)
  have in1: "in_stack ?c1"
    using assms by simp
  have t1: "top_code ?c1 = 2"
    using assms by (intro top_code_set_top_code) simp
  show ?thesis
    using in1 t1 by (simp add: try_always_catch_def 1 fz_catch_in_stack)
qed

text \<open>
  Claim C2, as amended. Let the top index be at least \<open>-1\<close>. If the top index plus 2
  is below the capacity, \<^verbatim>\<open>fz_push_try\<close> pushes a frame with code 0 at the next slot
  and returns 1. If the top index plus 2 equals the capacity, it returns 0 and pushes
  no normal frame: through \<^verbatim>\<open>fz_fake_throw\<close> it stores the code
  \<^verbatim>\<open>FZ_ERROR_GENERIC\<close> and the message "exception stack overflow!" (cut to the
  buffer; whole if the buffer has more than 25 bytes), reports it like a throw, and
  makes the last slot a frame with code 2. When the catch entry has popped that frame,
  the top index and the frames below are as before the push, and a further push is
  refused in the same, well-defined way. A region entered by the refused push does not
  run its try body: whatever the body is, the catch entry observes the code 2 and the
  stored error is the overflow.
\<close>

theorem fz_push_try_cases:
  assumes "- 1 \<le> error_top ctx"
  shows "(error_top ctx + 2 < nelem_stack ctx \<longrightarrow>
           fz_push_try h ctx =
             Return 1 (ctx\<lparr>error_top := error_top ctx + 1,
                             error_stack := (error_stack ctx)[nat (error_top ctx + 1) := 0]\<rparr>)) \<and>
         (error_top ctx + 2 = nelem_stack ctx \<longrightarrow>
           (\<exists>ctx'. fz_push_try h ctx = Return 0 ctx' \<and>
              error_top ctx' = error_top ctx + 1 \<and>
              error_stack ctx' = (error_stack ctx)[nat (error_top ctx + 1) := 2] \<and>
              top_code ctx' = 2 \<and>
              error_errcode ctx' = FZ_ERROR_GENERIC h \<and>
              error_message ctx' =
                fz_vsnprintf (sizeof_error_message h) ''exception stack overflow!'' \<and>
              (25 < sizeof_error_message h \<longrightarrow>
                 error_message ctx' = ''exception stack overflow!'') \<and>
              stderr ctx' = stderr ctx @
                (if FZ_ERROR_GENERIC h \<noteq> FZ_ERROR_ABORT h
                 then flush_output ctx @
                      [error_line (fz_vsnprintf (sizeof_error_message h)
                                     ''exception stack overflow!'')]
                 else []) \<and>
              (\<exists>ctx''. fz_catch ctx' = Return 2 ctx'' \<and>
                 error_top ctx'' = error_top ctx \<and>
                 nelem_stack ctx'' = nelem_stack ctx \<and>
                 take (nat (error_top ctx + 1)) (error_stack ctx'') =
                   take (nat (error_top ctx + 1)) (error_stack ctx) \<and>
                 (\<exists>ctx3. fz_push_try h ctx'' = Return 0 ctx3 \<and>
                    error_top ctx3 = error_top ctx + 1 \<and> top_code ctx3 = 2)))) \<and>
         (error_top ctx + 2 = nelem_stack ctx \<longrightarrow>
           (\<exists>c. try_always_catch h try_body None ctx = Return 2 c \<and>
                error_top c = error_top ctx \<and>
                error_errcode c = FZ_ERROR_GENERIC h))"
proof -
  let ?g = "FZ_ERROR_GENERIC h" and ?m = "''exception stack overflow!''"
  have normal: "fz_push_try h ctx =
             Return 1 (ctx\<lparr>error_top := error_top ctx + 1,
                             error_stack := (error_stack ctx)[nat (error_top ctx + 1) := 0]\<rparr>)"
    if "error_top ctx + 2 < nelem_stack ctx"
    using assms that by (simp add: fz_push_try_room set_top_code_def)
  have over: "fz_push_try h c =
      Return 0 (set_top_code 2 ((recorded h ?g ?m c)\<lparr>error_top := error_top c + 1\<rparr>))"
    if "- 1 \<le> error_top c" and "error_top c + 2 = nelem_stack c" for c
    using that by (simp add: fz_push_try_def fz_fake_throw_eq)
  have fits: "25 < sizeof_error_message h \<Longrightarrow> fz_vsnprintf (sizeof_error_message h) ?m = ?m"
    by (simp add: fz_vsnprintf_fits)
  {
    assume eq: "error_top ctx + 2 = nelem_stack ctx"
    let ?c1 = "set_top_code 2 ((recorded h ?g ?m ctx)\<lparr>error_top := error_top ctx + 1\<rparr>)"
    let ?c2 = "?c1\<lparr>error_top := error_top ctx\<rparr>"
    have in1: "in_stack ?c1"
      using assms eq by simp
    have 1: "fz_push_try h ctx = Return 0 ?c1"
      using assms eq by (rule over)
    have 2: "fz_catch ?c1 = Return 2 ?c2"
      using in1 by (simp add: fz_catch_in_stack)
    have 3: "fz_push_try h ?c2 =
       Return 0 (set_top_code 2 ((recorded h ?g ?m ?c2)\<lparr>error_top := error_top ?c2 + 1\<rparr>))"
      using assms eq by (intro over) simp_all
    let ?c3 = "set_top_code 2 ((recorded h ?g ?m ?c2)\<lparr>error_top := error_top ?c2 + 1\<rparr>)"
    have f1: "error_top ?c1 = error_top ctx + 1" "error_errcode ?c1 = ?g"
      "error_message ?c1 = fz_vsnprintf (sizeof_error_message h) ?m"
      by simp_all
    have mfit: "25 < sizeof_error_message h \<longrightarrow> error_message ?c1 = ?m"
      using fits f1(3) by simp
    have log: "stderr ?c1 = stderr ctx @
                (if ?g \<noteq> FZ_ERROR_ABORT h
                 then flush_output ctx @ [error_line (fz_vsnprintf (sizeof_error_message h) ?m)]
                 else [])"
      by (simp add: recorded_def)
    have s1: "error_stack ?c1 = (error_stack ctx)[nat (error_top ctx + 1) := 2]"
      by (simp add: set_top_code_def)
    have t1: "top_code ?c1 = 2"
      using assms eq by (intro top_code_set_top_code) simp
    have f2: "error_top ?c2 = error_top ctx" "nelem_stack ?c2 = nelem_stack ctx"
      by simp_all
    have s2: "take (nat (error_top ctx + 1)) (error_stack ?c2) =
              take (nat (error_top ctx + 1)) (error_stack ctx)"
      by (simp add: set_top_code_def)
    have f3: "error_top ?c3 = error_top ctx + 1"
      by simp
    have t3: "top_code ?c3 = 2"
      using assms eq by (intro top_code_set_top_code) simp
    have after: "\<exists>ctx3. fz_push_try h ?c2 = Return 0 ctx3 \<and>
                    error_top ctx3 = error_top ctx + 1 \<and> top_code ctx3 = 2"
      using 3 f3 t3 by blast
    have handled: "\<exists>ctx''. fz_catch ?c1 = Return 2 ctx'' \<and>
                 error_top ctx'' = error_top ctx \<and>
                 nelem_stack ctx'' = nelem_stack ctx \<and>
                 take (nat (error_top ctx + 1)) (error_stack ctx'') =
                   take (nat (error_top ctx + 1)) (error_stack ctx) \<and>
                 (\<exists>ctx3. fz_push_try h ctx'' = Return 0 ctx3 \<and>
                    error_top ctx3 = error_top ctx + 1 \<and> top_code ctx3 = 2)"
      using 2 f2 s2 after by blast
    have "\<exists>ctx'. fz_push_try h ctx = Return 0 ctx' \<and>
              error_top ctx' = error_top ctx + 1 \<and>
              error_stack ctx' = (error_stack ctx)[nat (error_top ctx + 1) := 2] \<and>
              top_code ctx' = 2 \<and>
              error_errcode ctx' = FZ_ERROR_GENERIC h \<and>
              error_message ctx' = fz_vsnprintf (sizeof_error_message h) ?m \<and>
              (25 < sizeof_error_message h \<longrightarrow> error_message ctx' = ?m) \<and>
              stderr ctx' = stderr ctx @
                (if ?g \<noteq> FZ_ERROR_ABORT h
                 then flush_output ctx @ [error_line (fz_vsnprintf (sizeof_error_message h) ?m)]
                 else []) \<and>
              (\<exists>ctx''. fz_catch ctx' = Return 2 ctx'' \<and>
                 error_top ctx'' = error_top ctx \<and>
                 nelem_stack ctx'' = nelem_stack ctx \<and>
                 take (nat (error_top ctx + 1)) (error_stack ctx'') =
                   take (nat (error_top ctx + 1)) (error_stack ctx) \<and>
                 (\<exists>ctx3. fz_push_try h ctx'' = Return 0 ctx3 \<and>
                    error_top ctx3 = error_top ctx + 1 \<and> top_code ctx3 = 2))"
      by (rule exI [of _ ?c1]) (intro conjI; fact)
  }
  moreover have "\<exists>c. try_always_catch h try_body None ctx = Return 2 c \<and>
                error_top c = error_top ctx \<and>
                error_errcode c = FZ_ERROR_GENERIC h"
    if "error_top ctx + 2 = nelem_stack ctx"
    using try_always_catch_refused [OF assms that, of h try_body] by blast
  ultimately show ?thesis
    using normal by blast
qed

theorem fz_push_try_cases_witness:
  "- 1 \<le> error_top (fz_new_context 1) \<and>
   error_top (fz_new_context 1) + 2 = nelem_stack (fz_new_context 1) \<and>
   (\<exists>ctx'. fz_push_try example_h (fz_new_context 1) = Return 0 ctx' \<and>
      error_top ctx' = 0 \<and> top_code ctx' = 2 \<and>
      error_errcode ctx' = 1 \<and>
      error_message ctx' = ''exception stack overflow!'')"
proof -
  have a: "- 1 \<le> error_top (fz_new_context 1)"
    and b: "error_top (fz_new_context 1) + 2 = nelem_stack (fz_new_context 1)"
    and t: "error_top (fz_new_context 1) = - 1"
    by (simp_all add: fz_new_context_def nelem_stack_def)
  have g: "FZ_ERROR_GENERIC example_h = 1" and n: "25 < sizeof_error_message example_h"
    by (simp_all add: example_h_def)
  from fz_push_try_cases [OF a, of example_h, THEN conjunct2, THEN conjunct1, THEN mp, OF b]
  obtain ctx' where "fz_push_try example_h (fz_new_context 1) = Return 0 ctx'"
    "error_top ctx' = error_top (fz_new_context 1) + 1" "top_code ctx' = 2"
    "error_errcode ctx' = FZ_ERROR_GENERIC example_h"
    "25 < sizeof_error_message example_h \<longrightarrow> error_message ctx' = ''exception stack overflow!''"
    by blast
  then have "\<exists>ctx'. fz_push_try example_h (fz_new_context 1) = Return 0 ctx' \<and>
      error_top ctx' = 0 \<and> top_code ctx' = 2 \<and>
      error_errcode ctx' = 1 \<and>
      error_message ctx' = ''exception stack overflow!''"
    using g n t by auto
  with a b show ?thesis
    by blast
qed

text \<open>
  Claim C2 as the spec states it fails twice. The stored message is
  "exception stack overflow!", with the exclamation mark. And the refusal synthesizes a
  frame only where a next slot exists: entered again while the synthesized frame is on
  top, where the top index plus 2 is still at least the capacity, \<^verbatim>\<open>fz_push_try\<close>
  moves the top past the end of the array.
\<close>

theorem fz_push_try_overflow_counterexample:
  "\<exists>c. fz_push_try example_h (fz_new_context 1) = Return 0 c \<and>
       error_message c = ''exception stack overflow!'' \<and>
       error_message c \<noteq> ''exception stack overflow'' \<and>
       nelem_stack c \<le> error_top c + 2 \<and>
       fz_push_try example_h c = Out_of_bounds"
  by (simp add: eval_defs)







end
